theory Spec2Isabelle
  imports Complex_Main "HOL-Library.Sublist" "HOL-Library.Multiset"
begin

section \<open>Python strings and paths used by \<open>train_miccai2018.py\<close>\<close>

text \<open>
  The script formats integers in two ways: \<open>str(gpu_id)\<close> and the zero-padded
  \<open>'%02d' % initial_epoch\<close> (the same conversion as the template field
  \<open>{epoch:02d}\<close>). Both are modelled on unbounded integers, as Python has them.
\<close>

type_synonym path = string

definition digit_char :: "nat \<Rightarrow> char" where
  "digit_char d = ''0123456789'' ! d"

fun digits :: "nat \<Rightarrow> string" where
  "digits n = (if n < 10 then [digit_char n] else digits (n div 10) @ [digit_char (n mod 10)])"

declare digits.simps [simp del]

definition str_int :: "int \<Rightarrow> string" where
  "str_int i = (if i < 0 then CHR ''-'' # digits (nat (- i)) else digits (nat i))"

definition zpad :: "nat \<Rightarrow> string \<Rightarrow> string" where
  "zpad w s = replicate (w - length s) (CHR ''0'') @ s"

definition fmt_02d :: "int \<Rightarrow> string" where
  \<comment> \<open>\<open>'%02d' % i\<close>: minimum width 2, the sign counts towards the width, zeros after the sign.\<close>
  "fmt_02d i = (if i < 0 then CHR ''-'' # zpad 1 (digits (nat (- i))) else zpad 2 (digits (nat i)))"

definition path_join :: "path \<Rightarrow> string \<Rightarrow> path" where
  \<comment> \<open>\<open>os.path.join(a, b)\<close> of posixpath, for two arguments.\<close>
  "path_join a b =
     (if b \<noteq> [] \<and> hd b = CHR ''/'' then b
      else if a = [] \<or> last a = CHR ''/'' then a @ b
      else a @ ''/'' @ b)"

definition rstrip_slash :: "string \<Rightarrow> string" where
  "rstrip_slash s = rev (dropWhile (\<lambda>c. c = CHR ''/'') (rev s))"

definition path_split :: "path \<Rightarrow> path \<times> string" where
  \<comment> \<open>\<open>os.path.split(p)\<close> of posixpath: the head loses its trailing slashes unless it is
      made of slashes only.\<close>
  "path_split p =
     (let tail = rev (takeWhile (\<lambda>c. c \<noteq> CHR ''/'') (rev p));
          head = rev (dropWhile (\<lambda>c. c \<noteq> CHR ''/'') (rev p))
      in (if head \<noteq> [] \<and> \<not> (\<forall>c \<in> set head. c = CHR ''/'') then rstrip_slash head else head,
          tail))"

section \<open>The world the script runs in\<close>

text \<open>
  \<open>train\<close> is glue around numpy, glob, random, os, TensorFlow/Keras and the project's
  own \<open>networks\<close>, \<open>losses\<close> and \<open>datagenerators\<close> modules. Each call that leaves the
  script is an event appended to a trace, in program order; a call is recorded when it is
  attempted, whether or not it then raises.
\<close>

datatype event =
    NpLoad path                                  \<comment> \<open>\<open>np.load(atlas_file)['vol']\<close>\<close>
  | Glob string                                  \<comment> \<open>\<open>glob.glob(pattern)\<close>\<close>
  | Shuffle                                      \<comment> \<open>\<open>random.shuffle\<close>\<close>
  | Mkdir path                                   \<comment> \<open>\<open>os.mkdir\<close>\<close>
  | SetEnviron string string                     \<comment> \<open>\<open>os.environ[k] = v\<close>\<close>
  | SetSession bool bool                         \<comment> \<open>\<open>set_session(tf.Session(config))\<close>: allow_growth, allow_soft_placement\<close>
  | Device string                                \<comment> \<open>entering \<open>with tf.device(gpu)\<close>\<close>
  | BuildNet "nat list" "nat list" "nat list"    \<comment> \<open>\<open>networks.miccai2018_net(vol_size, nf_enc, nf_dec)\<close>\<close>
  | LoadWeights path                             \<comment> \<open>\<open>model.load_weights\<close>\<close>
  | Save path                                    \<comment> \<open>\<open>model.save\<close>\<close>
  | Compile real real real "string list"         \<comment> \<open>\<open>model.compile\<close>: lr, image_sigma, prior_lambda, the losses\<close>
  | ExampleGen "path list" int                   \<comment> \<open>\<open>datagenerators.example_gen(names, batch_size)\<close>\<close>
  | Miccai2018Gen nat "nat list" "real list" int \<comment> \<open>\<open>datagenerators.miccai2018_gen\<close>: buffer, shape and content of the atlas batch, batch_size\<close>
  | NextBatch                                    \<comment> \<open>\<open>next(generator)\<close> inside \<open>fit_generator\<close>\<close>
  | TrainOnBatch                                 \<comment> \<open>one optimisation step\<close>

datatype file_error = NoSuchFile | NotAnArchive | NoSuchKey string

datatype error =
    LoadError path file_error      \<comment> \<open>\<open>np.load(f)['vol']\<close> raised\<close>
  | AssertionError string
  | ValueError string
  | FormatError string             \<comment> \<open>\<open>str.format\<close> raised\<close>
  | FileExistsError path
  | ExternalError event            \<comment> \<open>the external call raised\<close>
  | ParserExit                     \<comment> \<open>argparse ended the process\<close>

text \<open>
  An \<open>ndarray\<close> is a shape and a reference to a data buffer in the store, so that views
  (which share the buffer) and copies (which do not) are told apart. Model parameters are
  abstract: which file they were initialised from, and how many optimisation steps they
  have received.
\<close>

record ndarray =
  shape :: "nat list"
  buf :: nat

datatype content =
    Npz "(string \<times> nat list \<times> real list) list"   \<comment> \<open>named arrays: shape and row-major data\<close>
  | H5 "path option" nat                               \<comment> \<open>a saved model: its parameters\<close>
  | Other                                              \<comment> \<open>anything \<open>np.load\<close> cannot open and index by name\<close>

record world =
  files :: "path \<Rightarrow> content option"
  listdir :: "path \<Rightarrow> string list"       \<comment> \<open>\<open>os.listdir\<close>; \<open>[]\<close> where it raises, as glob reads it\<close>
  glob_dirs :: "string \<Rightarrow> path list"     \<comment> \<open>the directories a wildcard directory pattern expands to\<close>
  isdir :: "path \<Rightarrow> bool"
  environ :: "string \<Rightarrow> string option"
  draws :: "nat list"                     \<comment> \<open>the raw values the random module will produce next\<close>
  assertions :: bool                      \<comment> \<open>\<open>__debug__\<close>: \<open>assert\<close> statements run (no \<open>python -O\<close>)\<close>
  store :: "nat \<Rightarrow> real list option"     \<comment> \<open>array buffers\<close>
  next_addr :: nat
  model :: "(path option \<times> nat) option"   \<comment> \<open>the Keras model's parameters, once built\<close>
  ext_fails :: "event list \<Rightarrow> event \<Rightarrow> bool" \<comment> \<open>whether an external call raises, given the history\<close>
  gen_writes :: "nat \<Rightarrow> real list \<Rightarrow> real list" \<comment> \<open>what the data generator does to the atlas batch it holds\<close>
  trace :: "event list"

definition log :: "event \<Rightarrow> world \<Rightarrow> world" where
  "log ev w = w\<lparr>trace := trace w @ [ev]\<rparr>"

definition perform :: "event \<Rightarrow> world \<Rightarrow> (error + unit) \<times> world" where
  "perform ev w = (if ext_fails w (trace w) ev then Inl (ExternalError ev) else Inr (), log ev w)"

definition and_then ::
  "(error + 'a) \<times> world \<Rightarrow> ('a \<Rightarrow> world \<Rightarrow> (error + 'b) \<times> world) \<Rightarrow> (error + 'b) \<times> world" where
  \<comment> \<open>sequencing: an exception ends the run in the world it was raised in\<close>
  "and_then r f = (case r of (Inl e, w) \<Rightarrow> (Inl e, w) | (Inr x, w) \<Rightarrow> f x w)"

section \<open>numpy: loading, views and \<open>np.repeat\<close>\<close>

definition alloc :: "real list \<Rightarrow> world \<Rightarrow> nat \<times> world" where
  "alloc d w = (next_addr w, w\<lparr>store := (store w)(next_addr w \<mapsto> d), next_addr := Suc (next_addr w)\<rparr>)"

definition np_load_vol :: "path \<Rightarrow> world \<Rightarrow> (error + ndarray) \<times> world" where
  \<comment> \<open>\<open>np.load(f)['vol']\<close>\<close>
  "np_load_vol f w0 =
     (let w = log (NpLoad f) w0 in
      case files w f of
        None \<Rightarrow> (Inl (LoadError f NoSuchFile), w)
      | Some (Npz arrs) \<Rightarrow>
          (case map_of arrs ''vol'' of
             None \<Rightarrow> (Inl (LoadError f (NoSuchKey ''vol'')), w)
           | Some (sh, d) \<Rightarrow> (let (a, w') = alloc d w in (Inr \<lparr>shape = sh, buf = a\<rparr>, w')))
      | Some _ \<Rightarrow> (Inl (LoadError f NotAnArchive), w))"

definition newaxis_both :: "ndarray \<Rightarrow> ndarray" where
  \<comment> \<open>\<open>a[np.newaxis, ..., np.newaxis]\<close>: basic indexing, a view on the same buffer\<close>
  "newaxis_both a = a\<lparr>shape := 1 # shape a @ [1]\<rparr>"

definition rows :: "nat \<Rightarrow> 'a list \<Rightarrow> 'a list list" where
  \<comment> \<open>the \<open>n\<close> sub-arrays along axis 0 of row-major data\<close>
  "rows n d = map (\<lambda>i. take (length d div n) (drop (i * (length d div n)) d)) [0..<n]"

definition np_repeat0 :: "ndarray \<Rightarrow> int \<Rightarrow> world \<Rightarrow> (error + ndarray) \<times> world" where
  \<comment> \<open>\<open>np.repeat(a, k, axis=0)\<close>: a new array, each sub-array along axis 0 repeated \<open>k\<close> times\<close>
  "np_repeat0 a k w =
     (if k < 0 then (Inl (ValueError ''repeats may not contain negative values''), w)
      else case shape a of
        [] \<Rightarrow> (Inl (ValueError ''axis 0 is out of bounds''), w)
      | n # rest \<Rightarrow>
          (let d = (case store w (buf a) of None \<Rightarrow> [] | Some d \<Rightarrow> d);
               d' = concat (map (\<lambda>r. concat (replicate (nat k) r)) (rows n d));
               (b, w') = alloc d' w
           in (Inr \<lparr>shape = (n * nat k) # rest, buf = b\<rparr>, w')))"

section \<open>glob and random.shuffle\<close>

definition has_magic :: "string \<Rightarrow> bool" where
  "has_magic s = (\<exists>c \<in> set s. c = CHR ''*'' \<or> c = CHR ''?'' \<or> c = CHR ''['')"

definition ishidden :: "string \<Rightarrow> bool" where
  "ishidden n = (n \<noteq> [] \<and> hd n = CHR ''.'')"

definition fnmatch_npz :: "string \<Rightarrow> bool" where
  \<comment> \<open>\<open>fnmatch(n, '*.npz')\<close> on POSIX: the name ends in \<open>.npz\<close>\<close>
  "fnmatch_npz n = (4 \<le> length n \<and> drop (length n - 4) n = ''.npz'')"

definition glob1_npz :: "world \<Rightarrow> path \<Rightarrow> string list" where
  \<comment> \<open>\<open>glob1(dirname, '*.npz')\<close>: the pattern does not start with a dot, so hidden names are dropped\<close>
  "glob1_npz w d = filter fnmatch_npz (filter (\<lambda>n. \<not> ishidden n) (listdir w d))"

definition glob_npz :: "world \<Rightarrow> path \<Rightarrow> path list" where
  \<comment> \<open>\<open>glob.glob(os.path.join(data_dir, '*.npz'))\<close>\<close>
  "glob_npz w d =
     (let pathname = path_join d ''*.npz'';
          dirname = fst (path_split pathname)
      in if dirname = [] then glob1_npz w ''.''
         else concat (map (\<lambda>dir. map (path_join dir) (glob1_npz w dir))
                (if dirname \<noteq> pathname \<and> has_magic dirname then glob_dirs w dirname
                 else [dirname])))"

definition randbelow :: "nat \<Rightarrow> nat list \<Rightarrow> nat \<times> nat list" where
  "randbelow n ds = (case ds of [] \<Rightarrow> (0, []) | d # ds' \<Rightarrow> (d mod n, ds'))"

fun shuffle_from :: "nat \<Rightarrow> 'a list \<Rightarrow> nat list \<Rightarrow> 'a list \<times> nat list" where
  \<comment> \<open>\<open>for i in reversed(range(1, len(x))): j = randbelow(i + 1); x[i], x[j] = x[j], x[i]\<close>\<close>
  "shuffle_from 0 xs ds = (xs, ds)"
| "shuffle_from (Suc k) xs ds =
     (let (j, ds') = randbelow (Suc k + 1) ds
      in shuffle_from k (xs[Suc k := xs ! j, j := xs ! Suc k]) ds')"

definition random_shuffle :: "'a list \<Rightarrow> world \<Rightarrow> 'a list \<times> world" where
  "random_shuffle xs w =
     (let (ys, ds) = shuffle_from (length xs - 1) xs (draws w) in (ys, w\<lparr>draws := ds\<rparr>))"

section \<open>The framework calls\<close>

definition os_mkdir :: "path \<Rightarrow> world \<Rightarrow> (error + unit) \<times> world" where
  "os_mkdir p w =
     (if isdir w p \<or> files w p \<noteq> None then (Inl (FileExistsError p), log (Mkdir p) w)
      else and_then (perform (Mkdir p) w) (\<lambda>_ w'. (Inr (), w'\<lparr>isdir := (isdir w')(p := True)\<rparr>)))"

definition miccai2018_net :: "nat list \<Rightarrow> nat list \<Rightarrow> nat list \<Rightarrow> world \<Rightarrow> (error + unit) \<times> world" where
  "miccai2018_net vol_size nf_enc nf_dec w =
     and_then (perform (BuildNet vol_size nf_enc nf_dec) w) (\<lambda>_ w'. (Inr (), w'\<lparr>model := Some (None, 0)\<rparr>))"

definition load_weights :: "path \<Rightarrow> world \<Rightarrow> (error + unit) \<times> world" where
  "load_weights f w =
     and_then (perform (LoadWeights f) w) (\<lambda>_ w'. (Inr (), w'\<lparr>model := Some (Some f, 0)\<rparr>))"

definition model_save :: "path \<Rightarrow> world \<Rightarrow> (error + unit) \<times> world" where
  "model_save p w =
     and_then (perform (Save p) w) (\<lambda>_ w'.
       (Inr (), w'\<lparr>files := (files w')(p := map_option (\<lambda>(orig, n). H5 orig n) (model w'))\<rparr>))"

definition next_batch :: "ndarray \<Rightarrow> world \<Rightarrow> (error + unit) \<times> world" where
  \<comment> \<open>\<open>next(generator)\<close>: the generator may write to the atlas batch it was given\<close>
  "next_batch atlas_bs w =
     and_then (perform NextBatch w) (\<lambda>_ w'.
       (Inr (), w'\<lparr>store := (store w')(buf atlas_bs :=
          map_option (gen_writes w' (length (trace w'))) (store w' (buf atlas_bs)))\<rparr>))"

definition train_on_batch :: "world \<Rightarrow> (error + unit) \<times> world" where
  "train_on_batch w =
     and_then (perform TrainOnBatch w) (\<lambda>_ w'.
       (Inr (), w'\<lparr>model := map_option (\<lambda>(orig, n). (orig, Suc n)) (model w')\<rparr>))"

text \<open>
  Keras' \<open>ModelCheckpoint\<close> computes the file name at the end of epoch \<open>e\<close> (counted from
  0) as \<open>filepath.format(epoch=e + 1, **logs)\<close>. \<open>format_epoch\<close> is \<open>str.format\<close> for the
  replacement fields \<open>{epoch}\<close> and \<open>{epoch:02d}\<close>, the escapes \<open>{{\<close> and \<open>}}\<close> and
  literal text. Any other field is reported as a \<open>FormatError\<close>; Python raises there
  too unless the field names a key of \<open>logs\<close> or uses another conversion of \<open>epoch\<close>,
  which this model does not cover.
\<close>

definition field_value :: "string \<Rightarrow> int \<Rightarrow> error + string" where
  "field_value f e =
     (if f = ''epoch:02d'' then Inr (fmt_02d e)
      else if f = ''epoch'' then Inr (str_int e)
      else Inl (FormatError f))"

definition emit :: "string \<Rightarrow> error + string \<Rightarrow> error + string" where
  "emit s r = (case r of Inl e \<Rightarrow> Inl e | Inr t \<Rightarrow> Inr (s @ t))"

fun format_epoch :: "string option \<Rightarrow> string \<Rightarrow> int \<Rightarrow> error + string" where
  "format_epoch None [] e = Inr []"
| "format_epoch (Some f) [] e = Inl (FormatError ''expected } before end of string'')"
| "format_epoch None (c # r) e =
     (if c = CHR ''{'' then
        (case r of
           [] \<Rightarrow> Inl (FormatError ''Single { encountered in format string'')
         | c' # r' \<Rightarrow> if c' = CHR ''{'' then emit ''{'' (format_epoch None r' e)
                      else format_epoch (Some []) r e)
      else if c = CHR ''}'' then
        (case r of
           [] \<Rightarrow> Inl (FormatError ''Single } encountered in format string'')
         | c' # r' \<Rightarrow> if c' = CHR ''}'' then emit ''}'' (format_epoch None r' e)
                      else Inl (FormatError ''Single } encountered in format string''))
      else emit [c] (format_epoch None r e))"
| "format_epoch (Some f) (c # r) e =
     (if c = CHR ''}'' then
        (case field_value f e of Inl x \<Rightarrow> Inl x | Inr s \<Rightarrow> emit s (format_epoch None r e))
      else format_epoch (Some (f @ [c])) r e)"

definition on_epoch_end :: "string \<Rightarrow> int \<Rightarrow> world \<Rightarrow> (error + unit) \<times> world" where
  \<comment> \<open>\<open>ModelCheckpoint(filepath).on_epoch_end(epoch)\<close> with the default period 1 and
      \<open>save_best_only=False\<close>\<close>
  "on_epoch_end filepath epoch w =
     (case format_epoch None filepath (epoch + 1) of
        Inl e \<Rightarrow> (Inl e, w)
      | Inr p \<Rightarrow> model_save p w)"

function train_steps :: "int \<Rightarrow> int \<Rightarrow> ndarray \<Rightarrow> world \<Rightarrow> (error + unit) \<times> world" where
  \<comment> \<open>\<open>while steps_done < steps_per_epoch: next(generator); train_on_batch; steps_done += 1\<close>\<close>
  "train_steps steps_done steps atlas_bs w =
     (if steps_done < steps then
        (case next_batch atlas_bs w of
           (Inl e, w1) \<Rightarrow> (Inl e, w1)
         | (Inr _, w1) \<Rightarrow>
             (case train_on_batch w1 of
                (Inl e, w2) \<Rightarrow> (Inl e, w2)
              | (Inr _, w2) \<Rightarrow> train_steps (steps_done + 1) steps atlas_bs w2))
      else (Inr (), w))"
  by pat_completeness auto
termination
  by (relation "measure (\<lambda>(steps_done, steps, atlas_bs, w). nat (steps - steps_done))") auto

declare train_steps.simps [simp del]

function fit_loop :: "int \<Rightarrow> int \<Rightarrow> int \<Rightarrow> string \<Rightarrow> ndarray \<Rightarrow> world \<Rightarrow> (error + unit) \<times> world" where
  \<comment> \<open>\<open>while epoch < epochs: (steps); callbacks.on_epoch_end(epoch); epoch += 1\<close>\<close>
  "fit_loop epoch epochs steps filepath atlas_bs w =
     (if epoch < epochs then
        (case train_steps 0 steps atlas_bs w of
           (Inl e, w1) \<Rightarrow> (Inl e, w1)
         | (Inr _, w1) \<Rightarrow>
             (case on_epoch_end filepath epoch w1 of
                (Inl e, w2) \<Rightarrow> (Inl e, w2)
              | (Inr _, w2) \<Rightarrow> fit_loop (epoch + 1) epochs steps filepath atlas_bs w2))
      else (Inr (), w))"
  by pat_completeness auto
termination
  by (relation "measure (\<lambda>(epoch, epochs, steps, filepath, atlas_bs, w). nat (epochs - epoch))") auto

declare fit_loop.simps [simp del]

definition fit_generator ::
  "ndarray \<Rightarrow> int \<Rightarrow> int \<Rightarrow> string \<Rightarrow> int \<Rightarrow> world \<Rightarrow> (error + unit) \<times> world" where
  \<comment> \<open>\<open>model.fit_generator(gen, initial_epoch, epochs, callbacks=[ModelCheckpoint(filepath)],
      steps_per_epoch)\<close>\<close>
  "fit_generator atlas_bs initial_epoch epochs filepath steps w =
     fit_loop initial_epoch epochs steps filepath atlas_bs w"

section \<open>\<open>train\<close>\<close>

record args =
  data_dir :: path
  atlas_file :: path
  model_dir :: path
  gpu_id :: int
  lr :: real
  nb_epochs :: int
  prior_lambda :: real
  image_sigma :: real
  steps_per_epoch :: int
  batch_size :: int
  load_model_file :: "path option"

definition load_atlas :: "path \<Rightarrow> world \<Rightarrow> (error + ndarray) \<times> world" where
  \<comment> \<open>line 54: \<open>atlas_vol = np.load(atlas_file)['vol'][np.newaxis, ..., np.newaxis]\<close>\<close>
  "load_atlas f w = and_then (np_load_vol f w) (\<lambda>a w'. (Inr (newaxis_both a), w'))"

definition find_training_data :: "path \<Rightarrow> world \<Rightarrow> (error + path list) \<times> world" where
  \<comment> \<open>lines 60 to 62: glob, shuffle, then the assertion\<close>
  "find_training_data d w =
     (let w1 = log (Glob (path_join d ''*.npz'')) w;
          names = glob_npz w1 d;
          (train_vol_names, w2) = random_shuffle names (log Shuffle w1)
      in if assertions w \<and> \<not> length train_vol_names > 0
         then (Inl (AssertionError ''Could not find any training data''), w2)
         else (Inr train_vol_names, w2))"

definition prepare_model_folder :: "path \<Rightarrow> world \<Rightarrow> (error + unit) \<times> world" where
  \<comment> \<open>lines 69 and 70\<close>
  "prepare_model_folder m w = (if \<not> isdir w m then os_mkdir m w else (Inr (), w))"

definition gpu_handling :: "int \<Rightarrow> world \<Rightarrow> (error + string) \<times> world" where
  \<comment> \<open>lines 73 to 78; returns the device string\<close>
  "gpu_handling g w =
     (let gpu = ''/gpu:'' @ str_int g;
          w1 = (log (SetEnviron ''CUDA_VISIBLE_DEVICES'' (str_int g)) w)
                 \<lparr>environ := (environ w)(''CUDA_VISIBLE_DEVICES'' \<mapsto> str_int g)\<rparr>
      in and_then (perform (SetSession True True) w1) (\<lambda>_ w2. (Inr gpu, w2)))"

definition prepare_model :: "args \<Rightarrow> int \<Rightarrow> string \<Rightarrow> nat list \<Rightarrow> world \<Rightarrow> (error + unit) \<times> world" where
  \<comment> \<open>lines 81 to 96\<close>
  "prepare_model a initial_epoch gpu vol_size w =
     and_then (perform (Device gpu) w) (\<lambda>_ w.
     and_then (miccai2018_net vol_size [16, 32, 32, 32] [32, 32, 32, 32, 16, 3] w) (\<lambda>_ w.
     and_then (case load_model_file a of None \<Rightarrow> (Inr (), w) | Some f \<Rightarrow> load_weights f w) (\<lambda>_ w.
     and_then (model_save (path_join (model_dir a) (fmt_02d initial_epoch @ ''.h5'')) w) (\<lambda>_ w.
     perform (Compile (lr a) (image_sigma a) (prior_lambda a) [''recon_loss'', ''kl_loss'']) w))))"

definition data_generator :: "path list \<Rightarrow> ndarray \<Rightarrow> int \<Rightarrow> world \<Rightarrow> (error + ndarray) \<times> world" where
  \<comment> \<open>lines 99 to 101; returns the atlas batch the generator holds\<close>
  "data_generator train_vol_names atlas_vol bs w =
     and_then (np_repeat0 atlas_vol bs (log (ExampleGen train_vol_names bs) w)) (\<lambda>atlas_vol_bs w'.
       (Inr atlas_vol_bs,
        log (Miccai2018Gen (buf atlas_vol_bs) (shape atlas_vol_bs)
               (case store w' (buf atlas_vol_bs) of None \<Rightarrow> [] | Some d \<Rightarrow> d) bs) w'))"

definition fit :: "args \<Rightarrow> int \<Rightarrow> string \<Rightarrow> ndarray \<Rightarrow> world \<Rightarrow> (error + unit) \<times> world" where
  \<comment> \<open>lines 104 to 114\<close>
  "fit a initial_epoch gpu atlas_vol_bs w =
     (let save_file_name = path_join (model_dir a) ''{epoch:02d}.h5'' in
      and_then (perform (Device gpu) w) (\<lambda>_ w.
        fit_generator atlas_vol_bs initial_epoch (nb_epochs a) save_file_name (steps_per_epoch a) w))"

definition train :: "args \<Rightarrow> int \<Rightarrow> world \<Rightarrow> (error + unit) \<times> world" where
  "train a initial_epoch w =
     and_then (load_atlas (atlas_file a) w) (\<lambda>atlas_vol w.
     (let vol_size = butlast (tl (shape atlas_vol)) in
     and_then (find_training_data (data_dir a) w) (\<lambda>train_vol_names w.
     and_then (prepare_model_folder (model_dir a) w) (\<lambda>_ w.
     and_then (gpu_handling (gpu_id a) w) (\<lambda>gpu w.
     and_then (prepare_model a initial_epoch gpu vol_size w) (\<lambda>_ w.
     and_then (data_generator train_vol_names atlas_vol (batch_size a) w) (\<lambda>atlas_vol_bs w.
     fit a initial_epoch gpu atlas_vol_bs w)))))))"

section \<open>The command line\<close>

text \<open>
  The argument parser of lines 118 to 152, as \<open>argparse\<close> of CPython 2.7 to 3.11 reads a
  command line: every token before the first \<open>--\<close> is classified as
  \<open>_parse_optional\<close> does (exact option strings, \<open>--name=value\<close>, unambiguous prefix
  abbreviations, the \<open>-h\<close>/\<open>--help\<close> that \<open>ArgumentParser()\<close> adds, negative numbers and
  strings with a space as arguments), every token after it is an argument, and the
  tokens are then consumed from left to right. Values go through the option's \<open>type\<close>;
  \<open>int\<close> and \<open>float\<close> are modelled on plain ASCII decimal literals, and a float is
  represented by the real number its literal denotes. Defaults that are not strings
  (\<open>default=10\<close>) are stored as they are. Whenever \<open>argparse\<close> ends the process (an
  error, or the help text) the result is \<open>ParserExit\<close>.
\<close>

definition is_digit :: "char \<Rightarrow> bool" where
  "is_digit c = (c \<in> set ''0123456789'')"

definition digit_val :: "char \<Rightarrow> nat" where
  "digit_val c = of_char c - 48"

definition parse_nat :: "string \<Rightarrow> nat option" where
  "parse_nat s =
     (if s \<noteq> [] \<and> (\<forall>c \<in> set s. is_digit c)
      then Some (foldl (\<lambda>n c. 10 * n + digit_val c) 0 s) else None)"

definition is_space :: "char \<Rightarrow> bool" where
  \<comment> \<open>the ASCII whitespace that \<open>int\<close> and \<open>float\<close> strip\<close>
  "is_space c = (c \<in> set [CHR '' '', CHR 0x09, CHR 0x0A, CHR 0x0B, CHR 0x0C, CHR 0x0D])"

definition strip :: "string \<Rightarrow> string" where
  "strip s = rev (dropWhile is_space (rev (dropWhile is_space s)))"

definition parse_int :: "string \<Rightarrow> int option" where
  \<comment> \<open>\<open>int(s)\<close> on a decimal literal\<close>
  "parse_int s0 =
     (let s = strip s0 in
      if s \<noteq> [] \<and> hd s = CHR ''-'' then map_option (\<lambda>n. - int n) (parse_nat (tl s))
      else if s \<noteq> [] \<and> hd s = CHR ''+'' then map_option int (parse_nat (tl s))
      else map_option int (parse_nat s))"

definition parse_decimal :: "string \<Rightarrow> real option" where
  "parse_decimal s =
     (let ip = takeWhile (\<lambda>c. c \<noteq> CHR ''.'') s;
          rest = dropWhile (\<lambda>c. c \<noteq> CHR ''.'') s;
          fp = (if rest = [] then [] else tl rest)
      in if (ip = [] \<and> fp = []) \<or> \<not> (\<forall>c \<in> set ip. is_digit c) \<or> \<not> (\<forall>c \<in> set fp. is_digit c)
         then None
         else Some (real (foldl (\<lambda>n c. 10 * n + digit_val c) 0 ip)
                    + real (foldl (\<lambda>n c. 10 * n + digit_val c) 0 fp) / 10 ^ length fp))"

definition parse_float :: "string \<Rightarrow> real option" where
  \<comment> \<open>\<open>float(s)\<close> on a decimal literal with an optional exponent\<close>
  "parse_float s0 =
     (let s = strip s0;
          neg = (s \<noteq> [] \<and> hd s = CHR ''-'');
          u = (if s \<noteq> [] \<and> (hd s = CHR ''-'' \<or> hd s = CHR ''+'') then tl s else s);
          m = takeWhile (\<lambda>c. c \<noteq> CHR ''e'' \<and> c \<noteq> CHR ''E'') u;
          ex = dropWhile (\<lambda>c. c \<noteq> CHR ''e'' \<and> c \<noteq> CHR ''E'') u
      in case parse_decimal m of
           None \<Rightarrow> None
         | Some v \<Rightarrow>
             (let v' = (if neg then - v else v) in
              if ex = [] then Some v'
              else case (if \<exists>c \<in> set (tl ex). is_space c then None else parse_int (tl ex)) of
                     None \<Rightarrow> None
                   | Some k \<Rightarrow> Some (if 0 \<le> k then v' * 10 ^ nat k else v' / 10 ^ nat (- k))))"

definition default_args :: args where
  \<comment> \<open>the \<open>default=\<close> of each \<open>add_argument\<close>; \<open>data_dir\<close> is positional and has none\<close>
  "default_args =
     \<lparr>data_dir = [],
      atlas_file = ''../data/atlas_norm.npz'',
      model_dir = ''../models/'',
      gpu_id = 0,
      lr = 1 / 10000,
      nb_epochs = 1500,
      prior_lambda = 10,
      image_sigma = 2 / 100,
      steps_per_epoch = 100,
      batch_size = 1,
      load_model_file = Some ''../models/miccai2018_10_02_init1.h5''\<rparr>"

definition option_strings :: "string list" where
  "option_strings =
     [''--atlas_file'', ''--model_dir'', ''--gpu'', ''--lr'', ''--epochs'', ''--prior_lambda'',
      ''--image_sigma'', ''--steps_per_epoch'', ''--batch_size'', ''--load_model_file'']"

definition all_option_strings :: "string list" where
  \<comment> \<open>the parser's \<open>_option_string_actions\<close>: \<open>add_help\<close> registers the first two\<close>
  "all_option_strings = [''-h'', ''--help''] @ option_strings"

definition negative_number :: "string \<Rightarrow> bool" where
  \<comment> \<open>argparse's \<open>^-\d+$|^-\d*\.\d+$\<close>; \<open>$\<close> also matches before a final newline\<close>
  "negative_number t0 =
     (let t = (if t0 \<noteq> [] \<and> last t0 = CHR 0x0A then butlast t0 else t0) in
      t \<noteq> [] \<and> hd t = CHR ''-'' \<and>
      (let r = tl t; ip = takeWhile (\<lambda>c. c \<noteq> CHR ''.'') r; rest = dropWhile (\<lambda>c. c \<noteq> CHR ''.'') r in
       (\<forall>c \<in> set ip. is_digit c) \<and>
       (if rest = [] then ip \<noteq> [] else tl rest \<noteq> [] \<and> (\<forall>c \<in> set (tl rest). is_digit c))))"

datatype token_class =
    Positional                      \<comment> \<open>an argument: pattern \<open>A\<close>\<close>
  | Sep                             \<comment> \<open>the first \<open>--\<close>: pattern \<open>-\<close>\<close>
  | Opt string "string option"      \<comment> \<open>the option string it resolves to, and an explicit argument\<close>
  | Unknown                         \<comment> \<open>looks like an option and names none\<close>
  | Ambiguous                       \<comment> \<open>a prefix of several option strings\<close>

definition before_eq :: "string \<Rightarrow> string" where
  "before_eq t = takeWhile (\<lambda>c. c \<noteq> CHR ''='') t"

definition after_eq :: "string \<Rightarrow> string" where
  "after_eq t = tl (dropWhile (\<lambda>c. c \<noteq> CHR ''='') t)"

definition get_option_tuples :: "string \<Rightarrow> (string \<times> string option) list" where
  \<comment> \<open>\<open>_get_option_tuples\<close>, for a token of at least two characters that starts with a dash\<close>
  "get_option_tuples t =
     (if prefix ''--'' t then
        (let p = (if CHR ''='' \<in> set t then before_eq t else t);
             ex = (if CHR ''='' \<in> set t then Some (after_eq t) else None)
         in map (\<lambda>opt. (opt, ex)) (filter (prefix p) all_option_strings))
      else
        map (\<lambda>opt. if opt = take 2 t then (opt, Some (drop 2 t)) else (opt, None))
          (filter (\<lambda>opt. opt = take 2 t \<or> prefix t opt) all_option_strings))"

definition classify :: "string \<Rightarrow> token_class" where
  \<comment> \<open>\<open>_parse_optional\<close>\<close>
  "classify t =
     (if t = [] then Positional
      else if hd t \<noteq> CHR ''-'' then Positional
      else if t \<in> set all_option_strings then Opt t None
      else if length t = 1 then Positional
      else if CHR ''='' \<in> set t \<and> before_eq t \<in> set all_option_strings
        then Opt (before_eq t) (Some (after_eq t))
      else (case get_option_tuples t of
              [] \<Rightarrow> if negative_number t then Positional
                    else if CHR '' '' \<in> set t then Positional
                    else Unknown
            | [r] \<Rightarrow> Opt (fst r) (snd r)
            | _ \<Rightarrow> Ambiguous))"

definition as_int :: "string \<Rightarrow> (int \<Rightarrow> args) \<Rightarrow> error + args" where
  "as_int v f = (case parse_int v of None \<Rightarrow> Inl ParserExit | Some i \<Rightarrow> Inr (f i))"

definition as_float :: "string \<Rightarrow> (real \<Rightarrow> args) \<Rightarrow> error + args" where
  "as_float v f = (case parse_float v of None \<Rightarrow> Inl ParserExit | Some x \<Rightarrow> Inr (f x))"

definition set_option :: "string \<Rightarrow> string \<Rightarrow> args \<Rightarrow> error + args" where
  \<comment> \<open>the store action of each \<open>add_argument\<close>: \<open>dest\<close> and \<open>type\<close>\<close>
  "set_option opt v a =
     (if opt = ''--atlas_file'' then Inr (a\<lparr>atlas_file := v\<rparr>)
      else if opt = ''--model_dir'' then Inr (a\<lparr>model_dir := v\<rparr>)
      else if opt = ''--gpu'' then as_int v (\<lambda>i. a\<lparr>gpu_id := i\<rparr>)
      else if opt = ''--lr'' then as_float v (\<lambda>x. a\<lparr>lr := x\<rparr>)
      else if opt = ''--epochs'' then as_int v (\<lambda>i. a\<lparr>nb_epochs := i\<rparr>)
      else if opt = ''--prior_lambda'' then as_float v (\<lambda>x. a\<lparr>prior_lambda := x\<rparr>)
      else if opt = ''--image_sigma'' then as_float v (\<lambda>x. a\<lparr>image_sigma := x\<rparr>)
      else if opt = ''--steps_per_epoch'' then as_int v (\<lambda>i. a\<lparr>steps_per_epoch := i\<rparr>)
      else if opt = ''--batch_size'' then as_int v (\<lambda>i. a\<lparr>batch_size := i\<rparr>)
      else if opt = ''--load_model_file'' then Inr (a\<lparr>load_model_file := Some v\<rparr>)
      else Inl ParserExit)"

fun consume :: "(token_class \<times> string) list \<Rightarrow> bool \<Rightarrow> bool \<Rightarrow> args \<Rightarrow> error + args" where
  \<comment> \<open>the first flag says whether the positional \<open>data_dir\<close> has been filled, the second
      whether a token was left over (\<open>extras\<close>). The positional matches \<open>-*A-*\<close>, so it
      takes a separator next to it along; an option's argument matches \<open>A\<close> only.\<close>
  "consume [] seen extras a = (if seen \<and> \<not> extras then Inr a else Inl ParserExit)"
| "consume ((Positional, t) # rest) seen extras a =
     (if seen then consume rest seen True a
      else (case rest of
              (Sep, s) # rest' \<Rightarrow> consume rest' True extras (a\<lparr>data_dir := t\<rparr>)
            | _ \<Rightarrow> consume rest True extras (a\<lparr>data_dir := t\<rparr>)))"
| "consume ((Sep, s) # rest) seen extras a =
     (if seen then consume rest seen True a
      else (case rest of
              (Positional, t) # rest' \<Rightarrow> consume rest' True extras (a\<lparr>data_dir := t\<rparr>)
            | _ \<Rightarrow> consume rest seen True a))"
| "consume ((Unknown, t) # rest) seen extras a = consume rest seen True a"
| "consume ((Ambiguous, t) # rest) seen extras a = Inl ParserExit"
| "consume ((Opt opt (Some v), t) # rest) seen extras a =
     (if opt = ''-h'' \<or> opt = ''--help'' then Inl ParserExit
      else (case set_option opt v a of Inl e \<Rightarrow> Inl e | Inr a' \<Rightarrow> consume rest seen extras a'))"
| "consume ((Opt opt None, t) # rest) seen extras a =
     (if opt = ''-h'' \<or> opt = ''--help'' then Inl ParserExit
      else (case rest of
              (Positional, v) # rest' \<Rightarrow>
                (case set_option opt v a of Inl e \<Rightarrow> Inl e | Inr a' \<Rightarrow> consume rest' seen extras a')
            | _ \<Rightarrow> Inl ParserExit))"

definition parse_args :: "string list \<Rightarrow> error + args" where
  \<comment> \<open>\<open>parser.parse_args()\<close> on \<open>sys.argv[1:]\<close>\<close>
  "parse_args argv =
     (let pre = takeWhile (\<lambda>t. t \<noteq> ''--'') argv;
          post = dropWhile (\<lambda>t. t \<noteq> ''--'') argv
      in if Ambiguous \<in> set (map classify pre) then Inl ParserExit
         else consume (map (\<lambda>t. (classify t, t)) pre @
                       (case post of [] \<Rightarrow> [] | s # ts \<Rightarrow> (Sep, s) # map (\<lambda>t. (Positional, t)) ts))
                False False default_args)"

definition names_option :: "string \<Rightarrow> token_class \<Rightarrow> bool" where
  "names_option opt c = (case c of Opt opt' ex \<Rightarrow> opt' = opt | _ \<Rightarrow> False)"

definition supplied :: "string \<Rightarrow> string list \<Rightarrow> bool" where
  \<comment> \<open>a token of the command line, before any \<open>--\<close>, names the option: in full, as
      \<open>--name=value\<close> or abbreviated\<close>
  "supplied opt argv = (\<exists>t \<in> set (takeWhile (\<lambda>t. t \<noteq> ''--'') argv). names_option opt (classify t))"

definition kept :: "(token_class \<times> string) list \<Rightarrow> bool \<Rightarrow> args \<Rightarrow> args \<Rightarrow> bool" where
  \<comment> \<open>what consuming \<open>items\<close> leaves of the namespace \<open>a\<close>\<close>
  "kept items seen a a' = (
     ((\<forall>x \<in> set items. \<not> names_option ''--lr'' (fst x)) \<longrightarrow> lr a' = lr a) \<and>
     ((\<forall>x \<in> set items. \<not> names_option ''--epochs'' (fst x)) \<longrightarrow> nb_epochs a' = nb_epochs a) \<and>
     ((\<forall>x \<in> set items. \<not> names_option ''--prior_lambda'' (fst x)) \<longrightarrow> prior_lambda a' = prior_lambda a) \<and>
     ((\<forall>x \<in> set items. \<not> names_option ''--image_sigma'' (fst x)) \<longrightarrow> image_sigma a' = image_sigma a) \<and>
     ((\<forall>x \<in> set items. \<not> names_option ''--steps_per_epoch'' (fst x)) \<longrightarrow> steps_per_epoch a' = steps_per_epoch a) \<and>
     ((\<forall>x \<in> set items. \<not> names_option ''--batch_size'' (fst x)) \<longrightarrow> batch_size a' = batch_size a) \<and>
     ((\<forall>x \<in> set items. \<not> names_option ''--load_model_file'' (fst x)) \<longrightarrow> load_model_file a' = load_model_file a) \<and>
     (if seen then data_dir a' = data_dir a else data_dir a' \<in> snd ` set items))"

definition main :: "string list \<Rightarrow> world \<Rightarrow> (error + unit) \<times> world" where
  \<comment> \<open>\<open>train(**vars(args))\<close>: \<open>initial_epoch\<close> keeps its default 0\<close>
  "main argv w = (case parse_args argv of Inl e \<Rightarrow> (Inl e, w) | Inr a \<Rightarrow> train a 0 w)"

section \<open>The run as the specification describes it\<close>

text \<open>
  The specification gives the training run as a sequence of transitions: build the
  network, load the optional initial weights, save the epoch-0 checkpoint, compile, then
  per epoch draw a batch and optimise \<open>steps_per_epoch\<close> times and persist a checkpoint.
  \<open>script\<close> is that sequence written out as the events of a run in which nothing raises,
  computed from the arguments and the initial world alone; the theorems below compare
  what \<open>train\<close> does with it.
\<close>

definition vol_array :: "world \<Rightarrow> path \<Rightarrow> (nat list \<times> real list) option" where
  \<comment> \<open>the \<open>vol\<close> array of an archive, where there is one to read\<close>
  "vol_array w f = (case files w f of Some (Npz arrs) \<Rightarrow> map_of arrs ''vol'' | _ \<Rightarrow> None)"

definition new_events :: "world \<Rightarrow> world \<Rightarrow> event list" where
  \<comment> \<open>the events between two worlds of one run\<close>
  "new_events w w' = drop (length (trace w)) (trace w')"

definition follows :: "(error + 'a) \<times> world \<Rightarrow> world \<Rightarrow> event list \<Rightarrow> bool" where
  \<comment> \<open>a run from \<open>w\<close> performs a prefix of the events \<open>s\<close>, and all of them if it returns\<close>
  "follows rw w s =
     (\<exists>evs. trace (snd rw) = trace w @ evs \<and> prefix evs s \<and> (\<not> isl (fst rw) \<longrightarrow> evs = s))"

definition epoch_script :: "int \<Rightarrow> string \<Rightarrow> int \<Rightarrow> event list" where
  "epoch_script steps filepath e =
     concat (replicate (nat steps) [NextBatch, TrainOnBatch]) @
     (case format_epoch None filepath (e + 1) of Inr p \<Rightarrow> [Save p] | Inl _ \<Rightarrow> [])"

definition setup_script :: "args \<Rightarrow> int \<Rightarrow> nat list \<Rightarrow> event list" where
  "setup_script a initial_epoch vol_size =
     [BuildNet vol_size [16, 32, 32, 32] [32, 32, 32, 32, 16, 3]] @
     (case load_model_file a of None \<Rightarrow> [] | Some f \<Rightarrow> [LoadWeights f]) @
     [Save (path_join (model_dir a) (fmt_02d initial_epoch @ ''.h5'')),
      Compile (lr a) (image_sigma a) (prior_lambda a) [''recon_loss'', ''kl_loss'']]"

definition loop_script :: "args \<Rightarrow> int \<Rightarrow> event list" where
  "loop_script a initial_epoch =
     concat (map (epoch_script (steps_per_epoch a) (path_join (model_dir a) ''{epoch:02d}.h5''))
       [initial_epoch..nb_epochs a - 1])"

definition script :: "args \<Rightarrow> int \<Rightarrow> world \<Rightarrow> event list" where
  "script a initial_epoch w =
     (let (sh, d) = (case vol_array w (atlas_file a) of None \<Rightarrow> ([], []) | Some v \<Rightarrow> v);
          names = fst (shuffle_from (length (glob_npz w (data_dir a)) - 1)
                    (glob_npz w (data_dir a)) (draws w));
          gpu = ''/gpu:'' @ str_int (gpu_id a);
          k = nat (batch_size a)
      in [NpLoad (atlas_file a), Glob (path_join (data_dir a) ''*.npz''), Shuffle] @
         (if isdir w (model_dir a) then [] else [Mkdir (model_dir a)]) @
         [SetEnviron ''CUDA_VISIBLE_DEVICES'' (str_int (gpu_id a)), SetSession True True, Device gpu] @
         setup_script a initial_epoch sh @
         [ExampleGen names (batch_size a),
          Miccai2018Gen (Suc (next_addr w)) (k # sh @ [1]) (concat (replicate k d)) (batch_size a),
          Device gpu] @
         loop_script a initial_epoch)"

definition shuffled :: "world \<Rightarrow> path \<Rightarrow> path list" where
  \<comment> \<open>the training volumes in the order \<open>random.shuffle\<close> leaves them in\<close>
  "shuffled w d = fst (shuffle_from (length (glob_npz w d) - 1) (glob_npz w d) (draws w))"

definition after_data ::
  "args \<Rightarrow> int \<Rightarrow> nat list \<Rightarrow> ndarray \<Rightarrow> path list \<Rightarrow> world \<Rightarrow> (error + unit) \<times> world" where
  \<comment> \<open>lines 64 to 114: what \<open>train\<close> does once the training data is found\<close>
  "after_data a initial_epoch vol_size atlas_vol train_vol_names w =
     and_then (prepare_model_folder (model_dir a) w) (\<lambda>_ w.
     and_then (gpu_handling (gpu_id a) w) (\<lambda>gpu w.
     and_then (prepare_model a initial_epoch gpu vol_size w) (\<lambda>_ w.
     and_then (data_generator train_vol_names atlas_vol (batch_size a) w) (\<lambda>atlas_vol_bs w.
     fit a initial_epoch gpu atlas_vol_bs w))))"

definition atlas_loaded :: "world \<Rightarrow> path \<Rightarrow> real list \<Rightarrow> world" where
  \<comment> \<open>the world after line 54 has read the atlas data \<open>d\<close> into a new buffer\<close>
  "atlas_loaded w f d =
     (log (NpLoad f) w)\<lparr>store := (store w)(next_addr w \<mapsto> d), next_addr := Suc (next_addr w)\<rparr>"

section \<open>Example inputs\<close>



section \<open>The command line: defaults\<close>

lemma set_option_other:
  "set_option t v a = Inr a' \<Longrightarrow>
     (t \<noteq> ''--lr'' \<longrightarrow> lr a' = lr a) \<and>
     (t \<noteq> ''--epochs'' \<longrightarrow> nb_epochs a' = nb_epochs a) \<and>
     (t \<noteq> ''--prior_lambda'' \<longrightarrow> prior_lambda a' = prior_lambda a) \<and>
     (t \<noteq> ''--image_sigma'' \<longrightarrow> image_sigma a' = image_sigma a) \<and>
     (t \<noteq> ''--steps_per_epoch'' \<longrightarrow> steps_per_epoch a' = steps_per_epoch a) \<and>
     (t \<noteq> ''--batch_size'' \<longrightarrow> batch_size a' = batch_size a) \<and>
     (t \<noteq> ''--load_model_file'' \<longrightarrow> load_model_file a' = load_model_file a) \<and>
     data_dir a' = data_dir a"
  unfolding set_option_def as_int_def as_float_def
  by (auto split: if_splits option.splits)

lemma kept_skip:
  "kept rest seen a a' \<Longrightarrow> \<not> (\<exists>opt ex. c = Opt opt ex) \<Longrightarrow> kept ((c, t) # rest) seen a a'"
  by (auto simp: kept_def names_option_def split: token_class.splits if_splits)

lemma kept_fill:
  "kept rest True (a\<lparr>data_dir := t\<rparr>) a' \<Longrightarrow> (c, t) \<in> set items \<Longrightarrow> set rest \<subseteq> set items
     \<Longrightarrow> \<forall>x \<in> set items - set rest. \<not> (\<exists>opt ex. fst x = Opt opt ex)
     \<Longrightarrow> kept items False a a'"
  unfolding kept_def
  apply (intro conjI impI)
         apply (auto simp: names_option_def split: token_class.splits)[7]
  apply (force simp: image_iff)
  done

lemma kept_opt:
  "set_option opt v a = Inr a1 \<Longrightarrow> kept rest seen a1 a' \<Longrightarrow> kept ((Opt opt ex, t) # rest) seen a a'"
  using set_option_other[of opt v a a1]
  by (auto simp: kept_def names_option_def split: if_splits)

lemma kept_opt2:
  "set_option opt v a = Inr a1 \<Longrightarrow> kept rest seen a1 a'
     \<Longrightarrow> kept ((Opt opt ex, t) # (Positional, v') # rest) seen a a'"
  using set_option_other[of opt v a a1]
  by (auto simp: kept_def names_option_def split: if_splits)

lemma consume_kept:
  "consume items seen extras a = Inr a' \<Longrightarrow> kept items seen a a'"
proof (induction "length items" arbitrary: items seen extras a rule: less_induct)
  case less
  note IH = less.hyps and run = less.prems
  show ?case
  proof (cases items)
    case Nil
    with run show ?thesis by (simp add: kept_def split: if_splits)
  next
    case (Cons x rest)
    obtain c t where x: "x = (c, t)" by (cases x)
    show ?thesis
    proof (cases c)
      case Positional
      show ?thesis
      proof (cases seen)
        case True
        with run have "consume rest True True a = Inr a'" by (simp add: Cons x Positional)
        from IH[OF _ this] True have "kept rest seen a a'" by (simp add: Cons)
        then show ?thesis unfolding Cons x Positional by (rule kept_skip) simp
      next
        case False
        show ?thesis
        proof (cases "\<exists>s rest'. rest = (Sep, s) # rest'")
          case True
          then obtain s rest' where r: "rest = (Sep, s) # rest'" by auto
          from run have "consume rest' True extras (a\<lparr>data_dir := t\<rparr>) = Inr a'"
            by (simp add: Cons x Positional r False)
          from IH[OF _ this] have "kept rest' True (a\<lparr>data_dir := t\<rparr>) a'" by (simp add: Cons r)
          then have "kept ((Positional, t) # (Sep, s) # rest') False a a'"
            by (rule kept_fill[where c = Positional and t = t]) auto
          with False show ?thesis by (simp add: Cons x Positional r)
        next
          case nosep: False
          with run False have "consume rest True extras (a\<lparr>data_dir := t\<rparr>) = Inr a'"
            unfolding Cons x Positional
            by (cases rest) (auto split: prod.splits token_class.splits)
          from IH[OF _ this] have "kept rest True (a\<lparr>data_dir := t\<rparr>) a'" by (simp add: Cons)
          then have "kept ((Positional, t) # rest) False a a'"
            by (rule kept_fill[where c = Positional and t = t]) auto
          with False show ?thesis by (simp add: Cons x Positional)
        qed
      qed
    next
      case Sep
      show ?thesis
      proof (cases "\<not> seen \<and> (\<exists>s rest'. rest = (Positional, s) # rest')")
        case True
        then obtain s rest' where r: "rest = (Positional, s) # rest'" and ns: "\<not> seen" by auto
        from run have "consume rest' True extras (a\<lparr>data_dir := s\<rparr>) = Inr a'"
          by (simp add: Cons x Sep r ns)
        from IH[OF _ this] have "kept rest' True (a\<lparr>data_dir := s\<rparr>) a'" by (simp add: Cons r)
        then have "kept ((Sep, t) # (Positional, s) # rest') False a a'"
          by (rule kept_fill[where c = Positional and t = s]) auto
        with ns show ?thesis by (simp add: Cons x Sep r)
      next
        case False
        then have "consume rest seen True a = Inr a'"
          using run unfolding Cons x Sep
          by (cases seen; cases rest) (auto split: prod.splits token_class.splits)
        with IH[of rest seen True a] have "kept rest seen a a'"
          by (auto simp: Cons)
        then show ?thesis unfolding Cons x Sep by (rule kept_skip) simp
      qed
    next
      case (Opt opt ex)
      from run have nh: "opt \<noteq> ''-h''" "opt \<noteq> ''--help''"
        unfolding Cons x Opt by (cases ex; auto split: if_splits)+
      show ?thesis
      proof (cases ex)
        case (Some v)
        with run nh obtain a1 where so: "set_option opt v a = Inr a1"
          and r: "consume rest seen extras a1 = Inr a'"
          unfolding Cons x Opt by (auto split: sum.splits)
        from IH[OF _ r] have "kept rest seen a1 a'" by (simp add: Cons)
        with so show ?thesis unfolding Cons x Opt by (rule kept_opt)
      next
        case None
        with run nh obtain v rest' a1 where rr: "rest = (Positional, v) # rest'"
          and so: "set_option opt v a = Inr a1"
          and r: "consume rest' seen extras a1 = Inr a'"
          unfolding Cons x Opt by (auto split: sum.splits list.splits prod.splits token_class.splits)
        from IH[OF _ r] have "kept rest' seen a1 a'" by (simp add: Cons rr)
        with so show ?thesis unfolding Cons x Opt rr by (rule kept_opt2)
      qed
    next
      case Unknown
      with run have "consume rest seen True a = Inr a'" by (simp add: Cons x)
      with IH[of rest seen True a] have "kept rest seen a a'" by (simp add: Cons)
      then show ?thesis unfolding Cons x Unknown by (rule kept_skip) simp
    next
      case Ambiguous
      with run show ?thesis by (simp add: Cons x)
    qed
  qed
qed


lemma classify_sep: "classify ''--'' = Ambiguous"
  by (simp add: classify_def all_option_strings_def option_strings_def get_option_tuples_def)

lemma parse_args_items:
  assumes "parse_args argv = Inr a"
  shows "\<exists>items. consume items False False default_args = Inr a \<and>
           snd ` set items \<subseteq> set argv \<and>
           (\<forall>opt. \<not> supplied opt argv \<longrightarrow> (\<forall>x \<in> set items. \<not> names_option opt (fst x)))"
proof -
  define pre where "pre = takeWhile (\<lambda>t. t \<noteq> ''--'') argv"
  define post where "post = dropWhile (\<lambda>t. t \<noteq> ''--'') argv"
  define items where "items = map (\<lambda>t. (classify t, t)) pre @
     (case post of [] \<Rightarrow> [] | s # ts \<Rightarrow> (Sep, s) # map (\<lambda>t. (Positional, t)) ts)"
  have argv: "argv = pre @ post" by (simp add: pre_def post_def)
  from assms have c: "consume items False False default_args = Inr a"
    by (simp add: parse_args_def Let_def items_def pre_def post_def split: if_splits)
  have s: "snd ` set items \<subseteq> set argv"
    unfolding items_def argv by (auto split: list.splits)
  have n: "\<not> supplied opt argv \<Longrightarrow> x \<in> set items \<Longrightarrow> \<not> names_option opt (fst x)" for opt x
    unfolding items_def supplied_def pre_def[symmetric]
    by (auto simp: names_option_def split: list.splits)
  from c s n show ?thesis by blast
qed

lemma parse_args_positional:
  assumes "classify d = Positional"
  shows "parse_args [d] = Inr (default_args\<lparr>data_dir := d\<rparr>)"
proof -
  from assms have "d \<noteq> ''--''" using classify_sep by auto
  with assms show ?thesis by (simp add: parse_args_def)
qed

lemmas classify_eval = classify_def all_option_strings_def option_strings_def get_option_tuples_def
  before_eq_def after_eq_def negative_number_def is_digit_def

lemma classify_data: "classify ''data'' = Positional"
  by (simp add: classify_def)

lemma classify_gpu_eq: "classify ''--gpu=1'' = Opt ''--gpu'' (Some ''1'')"
  by (simp add: classify_eval)

lemma parse_args_demo:
  "parse_args [''data'', ''--gpu=1''] = Inr (default_args\<lparr>data_dir := ''data'', gpu_id := 1\<rparr>)"
  by (simp add: parse_args_def classify_data classify_gpu_eq set_option_def as_int_def parse_int_def
      parse_nat_def is_digit_def digit_val_def strip_def is_space_def)

lemma not_supplied_demo:
  "\<not> supplied ''--lr'' [''data'', ''--gpu=1'']" "\<not> supplied ''--epochs'' [''data'', ''--gpu=1'']"
  "\<not> supplied ''--prior_lambda'' [''data'', ''--gpu=1'']" "\<not> supplied ''--image_sigma'' [''data'', ''--gpu=1'']"
  "\<not> supplied ''--steps_per_epoch'' [''data'', ''--gpu=1'']" "\<not> supplied ''--batch_size'' [''data'', ''--gpu=1'']"
  "\<not> supplied ''--load_model_file'' [''data'', ''--gpu=1'']"
  by (simp_all add: supplied_def classify_data classify_gpu_eq names_option_def)

text \<open>
  C5. The command line takes one positional \<open>data_dir\<close>; given alone it leaves every
  option at its default, and in any accepted command line an option that no token names
  keeps its default: \<open>--lr\<close> 1e-4, \<open>--epochs\<close> 1500, \<open>--prior_lambda\<close> 10,
  \<open>--image_sigma\<close> 0.02, \<open>--steps_per_epoch\<close> 100, \<open>--batch_size\<close> 1.
\<close>

theorem cli_defaults:
  "(classify d = Positional \<longrightarrow>
      parse_args [d] =
        Inr \<lparr>data_dir = d, atlas_file = ''../data/atlas_norm.npz'', model_dir = ''../models/'',
             gpu_id = 0, lr = 1 / 10000, nb_epochs = 1500, prior_lambda = 10,
             image_sigma = 2 / 100, steps_per_epoch = 100, batch_size = 1,
             load_model_file = Some ''../models/miccai2018_10_02_init1.h5''\<rparr>) \<and>
   (parse_args argv = Inr a \<longrightarrow>
      data_dir a \<in> set argv \<and>
      (\<not> supplied ''--lr'' argv \<longrightarrow> lr a = 1 / 10000) \<and>
      (\<not> supplied ''--epochs'' argv \<longrightarrow> nb_epochs a = 1500) \<and>
      (\<not> supplied ''--prior_lambda'' argv \<longrightarrow> prior_lambda a = 10) \<and>
      (\<not> supplied ''--image_sigma'' argv \<longrightarrow> image_sigma a = 2 / 100) \<and>
      (\<not> supplied ''--steps_per_epoch'' argv \<longrightarrow> steps_per_epoch a = 100) \<and>
      (\<not> supplied ''--batch_size'' argv \<longrightarrow> batch_size a = 1))"
proof (intro conjI impI)
  assume "classify d = Positional"
  then show "parse_args [d] =
        Inr \<lparr>data_dir = d, atlas_file = ''../data/atlas_norm.npz'', model_dir = ''../models/'',
             gpu_id = 0, lr = 1 / 10000, nb_epochs = 1500, prior_lambda = 10,
             image_sigma = 2 / 100, steps_per_epoch = 100, batch_size = 1,
             load_model_file = Some ''../models/miccai2018_10_02_init1.h5''\<rparr>"
    by (simp add: parse_args_positional default_args_def)
next
  assume p: "parse_args argv = Inr a"
  from parse_args_items[OF p] obtain items where
    c: "consume items False False default_args = Inr a" and
    s: "snd ` set items \<subseteq> set argv" and
    n: "\<And>opt. \<not> supplied opt argv \<Longrightarrow> \<forall>x \<in> set items. \<not> names_option opt (fst x)"
    by blast
  from consume_kept[OF c] have k: "kept items False default_args a" .
  from k s show "data_dir a \<in> set argv" by (auto simp: kept_def)
  { assume "\<not> supplied ''--lr'' argv"
    from n[OF this] k show "lr a = 1 / 10000" by (simp add: kept_def default_args_def) }
  { assume "\<not> supplied ''--epochs'' argv"
    from n[OF this] k show "nb_epochs a = 1500" by (simp add: kept_def default_args_def) }
  { assume "\<not> supplied ''--prior_lambda'' argv"
    from n[OF this] k show "prior_lambda a = 10" by (simp add: kept_def default_args_def) }
  { assume "\<not> supplied ''--image_sigma'' argv"
    from n[OF this] k show "image_sigma a = 2 / 100" by (simp add: kept_def default_args_def) }
  { assume "\<not> supplied ''--steps_per_epoch'' argv"
    from n[OF this] k show "steps_per_epoch a = 100" by (simp add: kept_def default_args_def) }
  { assume "\<not> supplied ''--batch_size'' argv"
    from n[OF this] k show "batch_size a = 1" by (simp add: kept_def default_args_def) }
qed

theorem cli_defaults_witness:
  "classify ''data'' = Positional \<and>
   parse_args [''data''] =
        Inr \<lparr>data_dir = ''data'', atlas_file = ''../data/atlas_norm.npz'', model_dir = ''../models/'',
             gpu_id = 0, lr = 1 / 10000, nb_epochs = 1500, prior_lambda = 10,
             image_sigma = 2 / 100, steps_per_epoch = 100, batch_size = 1,
             load_model_file = Some ''../models/miccai2018_10_02_init1.h5''\<rparr> \<and>
   parse_args [''data'', ''--gpu=1''] = Inr (default_args\<lparr>data_dir := ''data'', gpu_id := 1\<rparr>) \<and>
   \<not> supplied ''--lr'' [''data'', ''--gpu=1''] \<and>
   \<not> supplied ''--epochs'' [''data'', ''--gpu=1''] \<and>
   \<not> supplied ''--prior_lambda'' [''data'', ''--gpu=1''] \<and>
   \<not> supplied ''--image_sigma'' [''data'', ''--gpu=1''] \<and>
   \<not> supplied ''--steps_per_epoch'' [''data'', ''--gpu=1''] \<and>
   \<not> supplied ''--batch_size'' [''data'', ''--gpu=1''] \<and>
   lr (default_args\<lparr>data_dir := ''data'', gpu_id := 1\<rparr>) = 1 / 10000 \<and>
   nb_epochs (default_args\<lparr>data_dir := ''data'', gpu_id := 1\<rparr>) = 1500 \<and>
   prior_lambda (default_args\<lparr>data_dir := ''data'', gpu_id := 1\<rparr>) = 10 \<and>
   image_sigma (default_args\<lparr>data_dir := ''data'', gpu_id := 1\<rparr>) = 2 / 100 \<and>
   steps_per_epoch (default_args\<lparr>data_dir := ''data'', gpu_id := 1\<rparr>) = 100 \<and>
   batch_size (default_args\<lparr>data_dir := ''data'', gpu_id := 1\<rparr>) = 1"
  using cli_defaults[of "''data''" "[''data'', ''--gpu=1'']" "default_args\<lparr>data_dir := ''data'', gpu_id := 1\<rparr>"]
    classify_data parse_args_demo not_supplied_demo
  by simp

section \<open>Runs of \<open>train\<close>: the events in order\<close>

lemma and_thenE:
  assumes "and_then m g = (r, w')"
  obtains (fail) e where "m = (Inl e, w')" "r = Inl e"
        | (ok) x w1 where "m = (Inr x, w1)" "g x w1 = (r, w')"
  using assms unfolding and_then_def by (auto split: prod.splits sum.splits)

lemma and_then_frame:
  fixes f :: "world \<Rightarrow> 'c"
  assumes "\<And>x w1. f (snd (g x w1)) = f w1"
  shows "f (snd (and_then m g)) = f (snd m)"
  using assms unfolding and_then_def by (auto split: prod.splits sum.splits)

lemma follows_pure: "trace w' = trace w \<Longrightarrow> follows (Inr x, w') w []"
  by (simp add: follows_def)

lemma follows_log: "follows (Inr x, log ev w) w [ev]"
  by (simp add: follows_def log_def)

lemma follows_perform: "follows (perform ev w) w [ev]"
  by (simp add: follows_def perform_def log_def)

lemma follows_and_then:
  assumes m: "follows m w s1"
    and g: "\<And>x w1. m = (Inr x, w1) \<Longrightarrow> follows (g x w1) w1 s2"
  shows "follows (and_then m g) w (s1 @ s2)"
proof (cases m)
  case (Pair r w1)
  show ?thesis
  proof (cases r)
    case (Inl e)
    with Pair m show ?thesis
      by (auto simp: follows_def and_then_def intro: prefix_prefix)
  next
    case (Inr x)
    with Pair m have t1: "trace w1 = trace w @ s1" by (auto simp: follows_def)
    from g[of x w1] Pair Inr obtain evs where
      "trace (snd (g x w1)) = trace w1 @ evs" "prefix evs s2" "\<not> isl (fst (g x w1)) \<longrightarrow> evs = s2"
      by (auto simp: follows_def)
    with t1 Pair Inr show ?thesis
      by (auto simp: follows_def and_then_def)
  qed
qed

lemma follows_and_then1:
  assumes m: "follows m w s1"
    and g: "\<And>x w1. m = (Inr x, w1) \<Longrightarrow> trace (snd (g x w1)) = trace w1 \<and> \<not> isl (fst (g x w1))"
  shows "follows (and_then m g) w s1"
proof -
  have "follows (and_then m g) w (s1 @ [])"
    by (rule follows_and_then[OF m]) (use g in \<open>auto simp: follows_def\<close>)
  then show ?thesis by simp
qed

lemma follows_os_mkdir: "follows (os_mkdir p w) w [Mkdir p]"
proof (cases "isdir w p \<or> files w p \<noteq> None")
  case True
  then show ?thesis by (simp add: os_mkdir_def follows_def log_def)
next
  case False
  then show ?thesis unfolding os_mkdir_def
    by (auto intro!: follows_and_then1 follows_perform)
qed

lemma follows_miccai2018_net: "follows (miccai2018_net v e d w) w [BuildNet v e d]"
  unfolding miccai2018_net_def by (auto intro!: follows_and_then1 follows_perform)

lemma follows_load_weights: "follows (load_weights f w) w [LoadWeights f]"
  unfolding load_weights_def by (auto intro!: follows_and_then1 follows_perform)

lemma follows_model_save: "follows (model_save p w) w [Save p]"
  unfolding model_save_def by (auto intro!: follows_and_then1 follows_perform)

lemma follows_next_batch: "follows (next_batch b w) w [NextBatch]"
  unfolding next_batch_def by (auto intro!: follows_and_then1 follows_perform)

lemma follows_train_on_batch: "follows (train_on_batch w) w [TrainOnBatch]"
  unfolding train_on_batch_def by (auto intro!: follows_and_then1 follows_perform)

lemma follows_on_epoch_end:
  "follows (on_epoch_end fp e w) w (case format_epoch None fp (e + 1) of Inr p \<Rightarrow> [Save p] | Inl _ \<Rightarrow> [])"
proof (cases "format_epoch None fp (e + 1)")
  case (Inl x)
  then show ?thesis by (simp add: on_epoch_end_def follows_def)
next
  case (Inr p)
  then show ?thesis by (simp add: on_epoch_end_def follows_model_save)
qed

lemma train_steps_and_then:
  "train_steps sd steps b w =
     (if sd < steps then
        and_then (next_batch b w) (\<lambda>_ w1. and_then (train_on_batch w1) (\<lambda>_ w2. train_steps (sd + 1) steps b w2))
      else (Inr (), w))"
  by (subst train_steps.simps) (auto simp: and_then_def split: prod.splits sum.splits)

lemma fit_loop_and_then:
  "fit_loop e n steps fp b w =
     (if e < n then
        and_then (train_steps 0 steps b w) (\<lambda>_ w1. and_then (on_epoch_end fp e w1) (\<lambda>_ w2. fit_loop (e + 1) n steps fp b w2))
      else (Inr (), w))"
  by (subst fit_loop.simps) (auto simp: and_then_def split: prod.splits sum.splits)

lemma follows_train_steps:
  "follows (train_steps sd steps b w) w (concat (replicate (nat (steps - sd)) [NextBatch, TrainOnBatch]))"
proof (induction sd steps b w rule: train_steps.induct)
  case (1 sd steps b w)
  show ?case
  proof (cases "sd < steps")
    case True
    then have n: "nat (steps - sd) = Suc (nat (steps - (sd + 1)))" by simp
    have "follows (train_steps sd steps b w) w
            ([NextBatch] @ [TrainOnBatch] @ concat (replicate (nat (steps - (sd + 1))) [NextBatch, TrainOnBatch]))"
    proof (subst train_steps_and_then, simp only: True if_True,
        rule follows_and_then[OF follows_next_batch],
        rule follows_and_then[OF follows_train_on_batch])
      fix x w1 y w2
      assume a: "next_batch b w = (Inr x, w1)" "train_on_batch w1 = (Inr y, w2)"
      show "follows (train_steps (sd + 1) steps b w2) w2
              (concat (replicate (nat (steps - (sd + 1))) [NextBatch, TrainOnBatch]))"
        by (rule "1.IH"[OF True a(1)[symmetric] refl a(2)[symmetric] refl])
    qed
    then show ?thesis by (simp add: n)
  next
    case False
    then show ?thesis
      by (subst train_steps_and_then) (simp add: follows_def)
  qed
qed
lemma upto_first: "e < n \<Longrightarrow> [e..n - 1] = e # [e + 1..n - 1]" for e n :: int
  by (simp add: upto_rec1)

lemma follows_fit_loop:
  "follows (fit_loop e n steps fp b w) w (concat (map (epoch_script steps fp) [e..n - 1]))"
proof (induction e n steps fp b w rule: fit_loop.induct)
  case (1 e n steps fp b w)
  show ?case
  proof (cases "e < n")
    case True
    have "follows (fit_loop e n steps fp b w) w
            (concat (replicate (nat (steps - 0)) [NextBatch, TrainOnBatch]) @
             (case format_epoch None fp (e + 1) of Inr p \<Rightarrow> [Save p] | Inl _ \<Rightarrow> []) @
             concat (map (epoch_script steps fp) [e + 1..n - 1]))"
    proof (subst fit_loop_and_then, simp only: True if_True,
        rule follows_and_then[OF follows_train_steps],
        rule follows_and_then[OF follows_on_epoch_end])
      fix x w1 y w2
      assume a: "train_steps 0 steps b w = (Inr x, w1)" "on_epoch_end fp e w1 = (Inr y, w2)"
      show "follows (fit_loop (e + 1) n steps fp b w2) w2
              (concat (map (epoch_script steps fp) [e + 1..n - 1]))"
        by (rule "1.IH"[OF True a(1)[symmetric] refl a(2)[symmetric] refl])
    qed
    then show ?thesis by (simp add: upto_first[OF True] epoch_script_def[of steps fp e])
  next
    case False
    then show ?thesis
      by (subst fit_loop_and_then) (simp add: follows_def)
  qed
qed


lemma and_then_Inr [simp]: "and_then (Inr x, w) g = g x w"
  by (simp add: and_then_def)

lemma and_then_Inl [simp]: "and_then (Inl e, w) g = (Inl e, w)"
  by (simp add: and_then_def)

lemma follows_shift:
  "trace w1 = trace w @ s0 \<Longrightarrow> follows m w1 s \<Longrightarrow> follows m w (s0 @ s)"
  by (auto simp: follows_def)

lemma log_frame [simp]:
  "store (log ev w) = store w" "next_addr (log ev w) = next_addr w" "isdir (log ev w) = isdir w"
  "listdir (log ev w) = listdir w" "glob_dirs (log ev w) = glob_dirs w" "draws (log ev w) = draws w"
  "files (log ev w) = files w" "trace (log ev w) = trace w @ [ev]" "assertions (log ev w) = assertions w"
  by (simp_all add: log_def)

lemma perform_frame [simp]:
  "store (snd (perform ev w)) = store w" "next_addr (snd (perform ev w)) = next_addr w"
  "isdir (snd (perform ev w)) = isdir w"
  by (simp_all add: perform_def)

lemma glob_npz_cong:
  "listdir w' = listdir w \<Longrightarrow> glob_dirs w' = glob_dirs w \<Longrightarrow> glob_npz w' d = glob_npz w d"
  by (simp add: glob_npz_def glob1_npz_def Let_def)

lemma follows_prepare_model:
  "follows (prepare_model a ie gpu vs w) w ([Device gpu] @ setup_script a ie vs)"
proof -
  have "follows (prepare_model a ie gpu vs w) w
     ([Device gpu] @ [BuildNet vs [16, 32, 32, 32] [32, 32, 32, 32, 16, 3]] @
      (case load_model_file a of None \<Rightarrow> [] | Some f \<Rightarrow> [LoadWeights f]) @
      [Save (path_join (model_dir a) (fmt_02d ie @ ''.h5''))] @
      [Compile (lr a) (image_sigma a) (prior_lambda a) [''recon_loss'', ''kl_loss'']])"
    unfolding prepare_model_def
    apply (rule follows_and_then[OF follows_perform])
    apply (rule follows_and_then[OF follows_miccai2018_net])
    apply (rule follows_and_then)
     apply (cases "load_model_file a"; simp add: follows_load_weights follows_pure)
    apply (rule follows_and_then[OF follows_model_save])
    apply (rule follows_perform)
    done
  then show ?thesis by (simp add: setup_script_def)
qed


lemma glob_npz_log [simp]: "glob_npz (log ev w) d = glob_npz w d"
  by (rule glob_npz_cong) simp_all

lemma load_atlas_fail:
  "vol_array w f = None \<Longrightarrow> \<exists>fe. load_atlas f w = (Inl (LoadError f fe), log (NpLoad f) w)"
  by (auto simp: vol_array_def load_atlas_def np_load_vol_def Let_def
      split: option.splits content.splits)

lemma load_atlas_ok:
  "vol_array w f = Some (sh, d) \<Longrightarrow>
     load_atlas f w =
       (Inr \<lparr>shape = 1 # sh @ [1], buf = next_addr w\<rparr>,
        (log (NpLoad f) w)\<lparr>store := (store w)(next_addr w \<mapsto> d), next_addr := Suc (next_addr w)\<rparr>)"
  by (auto simp: vol_array_def load_atlas_def np_load_vol_def Let_def alloc_def newaxis_both_def log_def
      split: option.splits content.splits)

lemma find_training_data_eq:
  "find_training_data d w =
     (if assertions w \<and> shuffled w d = []
      then Inl (AssertionError ''Could not find any training data'')
      else Inr (shuffled w d),
      (log Shuffle (log (Glob (path_join d ''*.npz'')) w))
        \<lparr>draws := snd (shuffle_from (length (glob_npz w d) - 1) (glob_npz w d) (draws w))\<rparr>)"
  by (simp add: find_training_data_def random_shuffle_def Let_def glob_npz_log shuffled_def
      split: prod.splits)

lemma follows_find_training_data:
  "follows (find_training_data d w) w [Glob (path_join d ''*.npz''), Shuffle]"
  by (simp add: find_training_data_eq follows_def)

lemma follows_prepare_model_folder:
  "follows (prepare_model_folder m w) w (if isdir w m then [] else [Mkdir m])"
  by (simp add: prepare_model_folder_def follows_os_mkdir follows_pure)

lemma follows_gpu_handling:
  "follows (gpu_handling g w) w [SetEnviron ''CUDA_VISIBLE_DEVICES'' (str_int g), SetSession True True]"
proof -
  have "follows (gpu_handling g w) w ([SetEnviron ''CUDA_VISIBLE_DEVICES'' (str_int g)] @ [SetSession True True])"
    unfolding gpu_handling_def Let_def
    by (rule follows_shift[OF _ follows_and_then1[OF follows_perform]]) (simp_all add: log_def)
  then show ?thesis by simp
qed

lemma gpu_handling_result:
  "gpu_handling g w = (Inr x, w') \<Longrightarrow> x = ''/gpu:'' @ str_int g"
  by (auto simp: gpu_handling_def Let_def elim!: and_thenE)

lemma prepare_model_folder_frame:
  "prepare_model_folder m w = (r, w') \<Longrightarrow> store w' = store w \<and> next_addr w' = next_addr w"
  by (auto simp: prepare_model_folder_def os_mkdir_def perform_def log_def and_then_def
      split: if_splits)

lemma gpu_handling_frame:
  "gpu_handling g w = (r, w') \<Longrightarrow> store w' = store w \<and> next_addr w' = next_addr w \<and> isdir w' = isdir w"
  by (auto simp: gpu_handling_def Let_def perform_def log_def and_then_def split: if_splits)

lemma perform_cases:
  assumes "perform ev w = (r, w')"
  shows "w' = log ev w"
  using assms by (auto simp: perform_def)

lemma miccai2018_net_frame:
  "miccai2018_net v e d w = (r, w') \<Longrightarrow> store w' = store w \<and> next_addr w' = next_addr w \<and> isdir w' = isdir w"
  by (auto simp: miccai2018_net_def perform_def log_def and_then_def split: if_splits)

lemma load_weights_frame:
  "load_weights f w = (r, w') \<Longrightarrow> store w' = store w \<and> next_addr w' = next_addr w \<and> isdir w' = isdir w"
  by (auto simp: load_weights_def perform_def log_def and_then_def split: if_splits)

lemma model_save_frame:
  "model_save p w = (r, w') \<Longrightarrow> store w' = store w \<and> next_addr w' = next_addr w \<and> isdir w' = isdir w"
  by (auto simp: model_save_def perform_def log_def and_then_def split: if_splits)


lemma prepare_model_frame:
  assumes "prepare_model a ie gpu vs w = (r, w')"
  shows "store w' = store w \<and> next_addr w' = next_addr w \<and> isdir w' = isdir w"
  using assms unfolding prepare_model_def
proof (elim and_thenE, goal_cases)
  case (1 e)
  then show ?case by (auto simp: perform_def)
next
  case (2 x w1 e)
  then show ?case by (auto dest!: miccai2018_net_frame perform_cases)
next
  case (3 x w1 y w2 e)
  then show ?case
    by (auto dest!: miccai2018_net_frame perform_cases load_weights_frame split: option.splits)
next
  case (4 x w1 y w2 z w3 e)
  then show ?case
    by (auto dest!: miccai2018_net_frame perform_cases load_weights_frame model_save_frame
        split: option.splits)
next
  case (5 x w1 y w2 z w3 u w4)
  then show ?case
    by (auto dest!: miccai2018_net_frame perform_cases load_weights_frame model_save_frame
        split: option.splits)
qed

lemma rows_one [simp]: "rows (Suc 0) d = [d]"
  by (simp add: rows_def)

lemma data_generator_neg:
  "bs < 0 \<Longrightarrow> \<exists>e. data_generator names atlas bs w = (Inl e, log (ExampleGen names bs) w)"
  by (simp add: data_generator_def np_repeat0_def)

lemma data_generator_ok:
  assumes "0 \<le> bs" "shape atlas = 1 # sh @ [1]" "store w (buf atlas) = Some d"
  shows "data_generator names atlas bs w =
     (Inr \<lparr>shape = nat bs # sh @ [1], buf = next_addr w\<rparr>,
      w\<lparr>trace := trace w @ [ExampleGen names bs,
            Miccai2018Gen (next_addr w) (nat bs # sh @ [1]) (concat (replicate (nat bs) d)) bs],
        store := (store w)(next_addr w \<mapsto> concat (replicate (nat bs) d)),
        next_addr := Suc (next_addr w)\<rparr>)"
  using assms by (simp add: data_generator_def np_repeat0_def alloc_def log_def Let_def)

lemma next_batch_frame:
  "next_batch b w = (r, w') \<Longrightarrow>
     isdir w' = isdir w \<and> next_addr w' = next_addr w \<and> (\<forall>x. x \<noteq> buf b \<longrightarrow> store w' x = store w x)"
  by (auto simp: next_batch_def perform_def log_def and_then_def split: if_splits)

lemma train_on_batch_frame:
  "train_on_batch w = (r, w') \<Longrightarrow> isdir w' = isdir w \<and> next_addr w' = next_addr w \<and> store w' = store w"
  by (auto simp: train_on_batch_def perform_def log_def and_then_def split: if_splits)

lemma on_epoch_end_frame:
  "on_epoch_end fp e w = (r, w') \<Longrightarrow> isdir w' = isdir w \<and> next_addr w' = next_addr w \<and> store w' = store w"
  by (auto simp: on_epoch_end_def dest!: model_save_frame split: sum.splits)

lemma train_steps_frame:
  "train_steps sd steps b w = (r, w') \<Longrightarrow>
     isdir w' = isdir w \<and> (\<forall>x. x \<noteq> buf b \<longrightarrow> store w' x = store w x)"
proof (induction sd steps b w arbitrary: r w' rule: train_steps.induct)
  case (1 sd steps b w)
  show ?case
  proof (cases "sd < steps")
    case True
    from "1.prems" have "and_then (next_batch b w)
        (\<lambda>_ w1. and_then (train_on_batch w1) (\<lambda>_ w2. train_steps (sd + 1) steps b w2)) = (r, w')"
      by (subst (asm) train_steps_and_then) (simp add: True)
    then show ?thesis
    proof (elim and_thenE, goal_cases)
      case (1 e)
      then show ?case by (auto dest!: next_batch_frame)
    next
      case (2 x w1 e)
      then show ?case by (auto dest!: next_batch_frame train_on_batch_frame)
    next
      case (3 x w1 y w2)
      from "1.IH"[OF True 3(1)[symmetric] refl 3(2)[symmetric] refl 3(3)] 3(1,2)
      show ?case by (auto dest!: next_batch_frame train_on_batch_frame)
    qed
  next
    case False
    with "1.prems" show ?thesis by (subst (asm) train_steps_and_then) simp
  qed
qed

lemma fit_loop_frame:
  "fit_loop e n steps fp b w = (r, w') \<Longrightarrow>
     isdir w' = isdir w \<and> (\<forall>x. x \<noteq> buf b \<longrightarrow> store w' x = store w x)"
proof (induction e n steps fp b w arbitrary: r w' rule: fit_loop.induct)
  case (1 e n steps fp b w)
  show ?case
  proof (cases "e < n")
    case True
    from "1.prems" have "and_then (train_steps 0 steps b w)
        (\<lambda>_ w1. and_then (on_epoch_end fp e w1) (\<lambda>_ w2. fit_loop (e + 1) n steps fp b w2)) = (r, w')"
      by (subst (asm) fit_loop_and_then) (simp add: True)
    then show ?thesis
    proof (elim and_thenE, goal_cases)
      case (1 e)
      then show ?case by (auto dest!: train_steps_frame)
    next
      case (2 x w1 e)
      then show ?case by (auto dest!: train_steps_frame on_epoch_end_frame)
    next
      case (3 x w1 y w2)
      from "1.IH"[OF True 3(1)[symmetric] refl 3(2)[symmetric] refl 3(3)] 3(1,2)
      show ?case by (auto dest!: train_steps_frame on_epoch_end_frame)
    qed
  next
    case False
    with "1.prems" show ?thesis by (subst (asm) fit_loop_and_then) simp
  qed
qed

lemma fit_frame:
  "fit a ie gpu b w = (r, w') \<Longrightarrow>
     isdir w' = isdir w \<and> (\<forall>x. x \<noteq> buf b \<longrightarrow> store w' x = store w x)"
  unfolding fit_def Let_def fit_generator_def
  by (elim and_thenE) (auto dest!: perform_cases fit_loop_frame)

lemma follows_fit:
  "follows (fit a ie gpu b w) w ([Device gpu] @ loop_script a ie)"
  unfolding fit_def Let_def fit_generator_def loop_script_def
  by (rule follows_and_then[OF follows_perform]) (rule follows_fit_loop)


lemma train_eq:
  "train a ie w =
     and_then (load_atlas (atlas_file a) w) (\<lambda>atlas_vol w.
     and_then (find_training_data (data_dir a) w) (\<lambda>train_vol_names w.
       after_data a ie (butlast (tl (shape atlas_vol))) atlas_vol train_vol_names w))"
  by (simp add: train_def after_data_def Let_def)

lemma follows_data_generator:
  assumes "shape atlas = 1 # sh @ [1]" "store w (buf atlas) = Some d"
  shows "follows (data_generator names atlas bs w) w
     [ExampleGen names bs,
      Miccai2018Gen (next_addr w) (nat bs # sh @ [1]) (concat (replicate (nat bs) d)) bs]"
proof (cases "bs < 0")
  case True
  from data_generator_neg[OF True, of names atlas w] show ?thesis
    by (auto simp: follows_def)
next
  case False
  then have "0 \<le> bs" by simp
  from data_generator_ok[OF this assms] show ?thesis by (simp add: follows_def)
qed

lemma data_generator_frame:
  assumes "data_generator names atlas bs w = (r, w')"
  shows "isdir w' = isdir w \<and> (\<forall>x. x \<noteq> next_addr w \<longrightarrow> store w' x = store w x) \<and>
         (\<forall>b. r = Inr b \<longrightarrow> buf b = next_addr w)"
  using assms
  by (auto simp: data_generator_def np_repeat0_def alloc_def log_def Let_def
      split: if_splits list.splits)

lemma follows_after_data:
  assumes sh: "shape atlas = 1 # sh @ [1]" and st: "store w (buf atlas) = Some d"
  shows "follows (after_data a ie vs atlas names w) w
     ((if isdir w (model_dir a) then [] else [Mkdir (model_dir a)]) @
      [SetEnviron ''CUDA_VISIBLE_DEVICES'' (str_int (gpu_id a)), SetSession True True] @
      ([Device (''/gpu:'' @ str_int (gpu_id a))] @ setup_script a ie vs) @
      [ExampleGen names (batch_size a),
       Miccai2018Gen (next_addr w) (nat (batch_size a) # sh @ [1])
         (concat (replicate (nat (batch_size a)) d)) (batch_size a)] @
      ([Device (''/gpu:'' @ str_int (gpu_id a))] @ loop_script a ie))"
  unfolding after_data_def
proof (rule follows_and_then[OF follows_prepare_model_folder],
    rule follows_and_then[OF follows_gpu_handling])
  fix x w1 gpu w2
  assume 1: "prepare_model_folder (model_dir a) w = (Inr x, w1)"
    and 2: "gpu_handling (gpu_id a) w1 = (Inr gpu, w2)"
  have gpu: "gpu = ''/gpu:'' @ str_int (gpu_id a)" by (rule gpu_handling_result[OF 2])
  have f2: "store w2 = store w" "next_addr w2 = next_addr w"
    using prepare_model_folder_frame[OF 1] gpu_handling_frame[OF 2] by simp_all
  show "follows
         (and_then (prepare_model a ie gpu vs w2)
           (\<lambda>_ w. and_then (data_generator names atlas (batch_size a) w)
                     (\<lambda>atlas_vol_bs w. fit a ie gpu atlas_vol_bs w)))
         w2
         (([Device (''/gpu:'' @ str_int (gpu_id a))] @ setup_script a ie vs) @
          [ExampleGen names (batch_size a),
           Miccai2018Gen (next_addr w) (nat (batch_size a) # sh @ [1])
             (concat (replicate (nat (batch_size a)) d)) (batch_size a)] @
          ([Device (''/gpu:'' @ str_int (gpu_id a))] @ loop_script a ie))"
    unfolding gpu
  proof (rule follows_and_then[OF follows_prepare_model])
    fix y w3
    assume 3: "prepare_model a ie (''/gpu:'' @ str_int (gpu_id a)) vs w2 = (Inr y, w3)"
    have f3: "store w3 = store w" "next_addr w3 = next_addr w"
      using prepare_model_frame[OF 3] f2 by simp_all
    have dg: "follows (data_generator names atlas (batch_size a) w3) w3
       [ExampleGen names (batch_size a),
        Miccai2018Gen (next_addr w) (nat (batch_size a) # sh @ [1])
          (concat (replicate (nat (batch_size a)) d)) (batch_size a)]"
      using follows_data_generator[OF sh, of w3 d names "batch_size a"] st f3 by simp
    show "follows
           (and_then (data_generator names atlas (batch_size a) w3)
             (\<lambda>atlas_vol_bs w. fit a ie (''/gpu:'' @ str_int (gpu_id a)) atlas_vol_bs w))
           w3
           ([ExampleGen names (batch_size a),
             Miccai2018Gen (next_addr w) (nat (batch_size a) # sh @ [1])
               (concat (replicate (nat (batch_size a)) d)) (batch_size a)] @
            ([Device (''/gpu:'' @ str_int (gpu_id a))] @ loop_script a ie))"
      by (rule follows_and_then[OF dg]) (rule follows_fit)
  qed
qed

lemma atlas_loaded_simps [simp]:
  "trace (atlas_loaded w f d) = trace w @ [NpLoad f]"
  "store (atlas_loaded w f d) = (store w)(next_addr w \<mapsto> d)"
  "next_addr (atlas_loaded w f d) = Suc (next_addr w)"
  "isdir (atlas_loaded w f d) = isdir w" "files (atlas_loaded w f d) = files w"
  "listdir (atlas_loaded w f d) = listdir w" "glob_dirs (atlas_loaded w f d) = glob_dirs w"
  "draws (atlas_loaded w f d) = draws w" "assertions (atlas_loaded w f d) = assertions w"
  "environ (atlas_loaded w f d) = environ w" "model (atlas_loaded w f d) = model w"
  by (simp_all add: atlas_loaded_def log_def)

lemma shuffled_atlas_loaded [simp]: "shuffled (atlas_loaded w f d) dir = shuffled w dir"
proof -
  have "glob_npz (atlas_loaded w f d) dir = glob_npz w dir"
    by (rule glob_npz_cong) simp_all
  then show ?thesis by (simp add: shuffled_def)
qed

lemma train_loaded:
  assumes "vol_array w (atlas_file a) = Some (sh, d)"
  shows "train a ie w =
     and_then (find_training_data (data_dir a) (atlas_loaded w (atlas_file a) d))
       (\<lambda>names w'. after_data a ie sh \<lparr>shape = 1 # sh @ [1], buf = next_addr w\<rparr> names w')"
  using load_atlas_ok[OF assms] by (simp add: train_eq atlas_loaded_def)

lemma follows_after_load:
  "follows
     (and_then (find_training_data (data_dir a) (atlas_loaded w (atlas_file a) d))
       (\<lambda>names w'. after_data a ie sh \<lparr>shape = 1 # sh @ [1], buf = next_addr w\<rparr> names w'))
     (atlas_loaded w (atlas_file a) d)
     ([Glob (path_join (data_dir a) ''*.npz''), Shuffle] @
      ((if isdir w (model_dir a) then [] else [Mkdir (model_dir a)]) @
       [SetEnviron ''CUDA_VISIBLE_DEVICES'' (str_int (gpu_id a)), SetSession True True] @
       ([Device (''/gpu:'' @ str_int (gpu_id a))] @ setup_script a ie sh) @
       [ExampleGen (shuffled w (data_dir a)) (batch_size a),
        Miccai2018Gen (Suc (next_addr w)) (nat (batch_size a) # sh @ [1])
          (concat (replicate (nat (batch_size a)) d)) (batch_size a)] @
       ([Device (''/gpu:'' @ str_int (gpu_id a))] @ loop_script a ie)))"
proof (rule follows_and_then[OF follows_find_training_data])
  fix names w2
  define w1 where "w1 = atlas_loaded w (atlas_file a) d"
  define atlas where "atlas = \<lparr>shape = 1 # sh @ [1], buf = next_addr w\<rparr>"
  assume "find_training_data (data_dir a) (atlas_loaded w (atlas_file a) d) = (Inr names, w2)"
  then have f: "find_training_data (data_dir a) w1 = (Inr names, w2)" by (simp add: w1_def)
  then have n1: "names = shuffled w1 (data_dir a)"
    and w2e: "w2 = (log Shuffle (log (Glob (path_join (data_dir a) ''*.npz'')) w1))
      \<lparr>draws := snd (shuffle_from (length (glob_npz w1 (data_dir a)) - 1)
                       (glob_npz w1 (data_dir a)) (draws w1))\<rparr>"
    by (auto simp: find_training_data_eq split: if_splits)
  have names: "names = shuffled w (data_dir a)" using n1 by (simp add: w1_def)
  have w2: "store w2 = store w1" "next_addr w2 = next_addr w1" "isdir w2 = isdir w"
    by (simp_all add: w2e) (simp add: w1_def)
  have "follows (after_data a ie sh atlas names w2) w2
     ((if isdir w2 (model_dir a) then [] else [Mkdir (model_dir a)]) @
      [SetEnviron ''CUDA_VISIBLE_DEVICES'' (str_int (gpu_id a)), SetSession True True] @
      ([Device (''/gpu:'' @ str_int (gpu_id a))] @ setup_script a ie sh) @
      [ExampleGen names (batch_size a),
       Miccai2018Gen (next_addr w2) (nat (batch_size a) # sh @ [1])
         (concat (replicate (nat (batch_size a)) d)) (batch_size a)] @
      ([Device (''/gpu:'' @ str_int (gpu_id a))] @ loop_script a ie))"
    by (rule follows_after_data) (simp_all add: atlas_def w2 w1_def)
  then show "follows (after_data a ie sh \<lparr>shape = 1 # sh @ [1], buf = next_addr w\<rparr> names w2) w2
     ((if isdir w (model_dir a) then [] else [Mkdir (model_dir a)]) @
      [SetEnviron ''CUDA_VISIBLE_DEVICES'' (str_int (gpu_id a)), SetSession True True] @
      ([Device (''/gpu:'' @ str_int (gpu_id a))] @ setup_script a ie sh) @
      [ExampleGen (shuffled w (data_dir a)) (batch_size a),
       Miccai2018Gen (Suc (next_addr w)) (nat (batch_size a) # sh @ [1])
         (concat (replicate (nat (batch_size a)) d)) (batch_size a)] @
      ([Device (''/gpu:'' @ str_int (gpu_id a))] @ loop_script a ie))"
    by (simp add: names w2 w1_def atlas_def)
qed

lemma train_atlas_fail:
  assumes "vol_array w (atlas_file a) = None"
  shows "\<exists>fe. train a ie w = (Inl (LoadError (atlas_file a) fe), log (NpLoad (atlas_file a)) w)"
  using load_atlas_fail[OF assms] by (auto simp: train_eq)

lemma train_follows_script: "follows (train a ie w) w (script a ie w)"
proof (cases "vol_array w (atlas_file a)")
  case None
  from train_atlas_fail[OF None, of ie] show ?thesis
    by (auto simp: follows_def script_def Let_def split: prod.splits)
next
  case (Some v)
  obtain sh d where v: "v = (sh, d)" by (cases v)
  have t1: "trace (atlas_loaded w (atlas_file a) d) = trace w @ [NpLoad (atlas_file a)]" by simp
  from follows_shift[OF t1 follows_after_load[of a w d ie sh]] show ?thesis
    by (simp add: train_loaded[of w a sh d ie] script_def Let_def Some v shuffled_def)
qed

lemma follows_new_events:
  "follows rw w s \<Longrightarrow> prefix (new_events w (snd rw)) s \<and> (\<not> isl (fst rw) \<longrightarrow> new_events w (snd rw) = s) \<and>
     trace (snd rw) = trace w @ new_events w (snd rw)"
  by (auto simp: follows_def new_events_def)

section \<open>Failing before any device is touched\<close>

lemma shuffle_from_nil [simp]: "shuffle_from 0 xs ds = (xs, ds)"
  by simp











end
